theory Spec2Isabelle
  imports Main
begin

text \<open>
  A model of \<^verbatim>\<open>conversion.go\<close> of go-etherutils: \<^verbatim>\<open>StringToWei\<close> turns a string such
  as "10 ether" into a number of Wei, \<^verbatim>\<open>WeiToString\<close> turns a number of Wei into a
  string with a unit, and \<^verbatim>\<open>UnitToMultiplier\<close> is the table of units both rest on.
\<close>

section \<open>Outcomes of the Go functions\<close>

text \<open>
  The conversion functions of \<^verbatim>\<open>conversion.go\<close> either return a value, return an
  error built with \<^verbatim>\<open>errors.New\<close>, or stop in a run-time panic. Each error
  constructor below stands for one \<^verbatim>\<open>errors.New\<close> site of the source and carries
  the strings that the message is formatted from.
\<close>

datatype error =
    EmptyValue                    \<comment> \<open>"Failed to parse empty value"\<close>
  | UnknownFormat string          \<comment> \<open>"Unknown format of %s"\<close>
  | NegativeWei                   \<comment> \<open>"Value resulted in negative number of Wei"\<close>
  | FractionalWei                 \<comment> \<open>"Value resulted in fractional number of Wei"\<close>
  | FailedParse string string     \<comment> \<open>"Failed to parse %s %s"\<close>
  | FailedNumeric string string   \<comment> \<open>"Failed to parse numeric value of %s %s"\<close>
  | FailedUnit string string      \<comment> \<open>"Failed to parse unit of %s %s"\<close>
  | UnknownUnit string            \<comment> \<open>"Unknown unit %s"\<close>

datatype panic =
    NilDereference                \<comment> \<open>a method of \<^verbatim>\<open>*big.Int\<close> reads through a nil pointer\<close>
  | IndexOutOfRange nat           \<comment> \<open>an index beyond the length of an array or slice\<close>

datatype 'a outcome = Value 'a | Failure error | Panic panic

section \<open>The functions of package strings that the source calls\<close>

text \<open>
  Go strings are byte sequences, and so is \<^typ>\<open>string\<close>. Every separator and cut set
  the source passes is a single byte, so it is a \<^typ>\<open>char\<close> here.
\<close>

definition Contains :: "string \<Rightarrow> char \<Rightarrow> bool" where
  "Contains s sep = (sep \<in> set s)"

text \<open>\<^verbatim>\<open>strings.Split\<close>: all the pieces between separators; an input without a
  separator (the empty input too) gives one piece.\<close>

fun Split :: "string \<Rightarrow> char \<Rightarrow> string list" where
  "Split [] sep = [[]]"
| "Split (c # cs) sep =
     (if c = sep then [] # Split cs sep
      else (case Split cs sep of [] \<Rightarrow> [[c]] | p # ps \<Rightarrow> (c # p) # ps))"

definition TrimRight :: "string \<Rightarrow> char \<Rightarrow> string" where
  "TrimRight s cutset = rev (dropWhile (\<lambda>c. c = cutset) (rev s))"

definition Repeat :: "char \<Rightarrow> nat \<Rightarrow> string" where
  "Repeat c n = replicate n c"

text \<open>\<^verbatim>\<open>strings.ToLower\<close> on ASCII text: the letters A to Z move to a to z and every
  other byte stays. (Go also lowers letters beyond ASCII, for instance U+212A KELVIN SIGN to
  k; unit names with such letters are outside this model, which is exact on ASCII names.)\<close>

definition lowerChar :: "char \<Rightarrow> char" where
  "lowerChar c =
     (case map_of (zip ''ABCDEFGHIJKLMNOPQRSTUVWXYZ'' ''abcdefghijklmnopqrstuvwxyz'') c of
        Some l \<Rightarrow> l
      | None \<Rightarrow> c)"

definition ToLower :: "string \<Rightarrow> string" where
  "ToLower s = map lowerChar s"

section \<open>The methods of math/big.Int that the source calls\<close>

text \<open>
  A \<^verbatim>\<open>big.Int\<close> is an unbounded integer, an \<^typ>\<open>int\<close>. \<^verbatim>\<open>Text(10)\<close> writes it
  in decimal, with a minus sign when negative.
\<close>

definition digitChar :: "nat \<Rightarrow> char" where
  "digitChar d = ''0123456789'' ! d"

function natText :: "nat \<Rightarrow> string" where
  "natText n = (if n < 10 then [digitChar n] else natText (n div 10) @ [digitChar (n mod 10)])"
  by pat_completeness auto
termination
  by (relation "measure id") auto

declare natText.simps [simp del]

definition Text :: "int \<Rightarrow> string" where
  "Text x = (if x < 0 then CHR ''-'' # natText (nat (- x)) else natText (nat x))"

text \<open>
  \<^verbatim>\<open>SetString(s, base)\<close> scans an optional sign and then the digits of the number. The
  value of a byte as a digit is \<open>digitVal\<close>; a byte that is no digit of the base ends
  the number. With base 0 the prefix picks the base (\<^verbatim>\<open>0b\<close> 2, \<^verbatim>\<open>0o\<close> 8,
  \<^verbatim>\<open>0x\<close> 16, a plain leading \<^verbatim>\<open>0\<close> 8, otherwise 10) and an underscore may
  separate digits. The call succeeds when digits were found, the separators were well placed
  and the whole string was consumed.
\<close>

definition digitVal :: "char \<Rightarrow> nat" where
  "digitVal ch =
     (let c = (of_char ch :: nat) in
      if 48 \<le> c \<and> c \<le> 57 then c - 48
      else if 97 \<le> c \<and> c \<le> 122 then c - 97 + 10
      else if 65 \<le> c \<and> c \<le> 90 then c - 65 + 10
      else 63)"

datatype prev = PrevSeparator | PrevDigit | PrevOther

record scanner =
  mant :: nat         \<comment> \<open>the digits read so far, as a number\<close>
  ndigits :: nat      \<comment> \<open>how many digits were read\<close>
  prev :: prev        \<comment> \<open>the kind of the byte before\<close>
  invalSep :: bool    \<comment> \<open>an underscore that does not follow a digit was seen\<close>

fun scanDigits :: "bool \<Rightarrow> nat \<Rightarrow> string \<Rightarrow> scanner \<Rightarrow> scanner \<times> string" where
  "scanDigits sepOk b [] st = (st, [])"
| "scanDigits sepOk b (ch # cs) st =
     (if ch = CHR ''_'' \<and> sepOk
      then scanDigits sepOk b cs
             (st\<lparr>prev := PrevSeparator, invalSep := (invalSep st \<or> prev st \<noteq> PrevDigit)\<rparr>)
      else if digitVal ch \<ge> b then (st, ch # cs)
      else scanDigits sepOk b cs
             (st\<lparr>mant := mant st * b + digitVal ch, ndigits := ndigits st + 1, prev := PrevDigit\<rparr>))"

text \<open>The scan of the unsigned part: the number read, whether the scan reports an error,
  and the bytes left over.\<close>

definition natScan :: "nat \<Rightarrow> string \<Rightarrow> nat \<times> bool \<times> string" where
  "natScan base s =
     (if base \<noteq> 0 then
        (let (st, rest) = scanDigits False base s
                            \<lparr>mant = 0, ndigits = 0, prev = PrevOther, invalSep = False\<rparr>
         in (mant st, ndigits st = 0, rest))
      else if s \<noteq> [] \<and> hd s = CHR ''0'' then
        (case tl s of
           [] \<Rightarrow> (0, False, [])
         | ch # cs \<Rightarrow>
            (let (b, letter) =
                   (if ch = CHR ''b'' \<or> ch = CHR ''B'' then (2, True)
                    else if ch = CHR ''o'' \<or> ch = CHR ''O'' then (8, True)
                    else if ch = CHR ''x'' \<or> ch = CHR ''X'' then (16, True)
                    else (8, False));
                 (st, rest) = scanDigits True b (if letter then cs else ch # cs)
                                \<lparr>mant = 0, ndigits = 0, prev = PrevDigit, invalSep = False\<rparr>
             in (mant st,
                 invalSep st \<or> prev st = PrevSeparator \<or> (ndigits st = 0 \<and> letter),
                 rest)))
      else
        (let (st, rest) = scanDigits True 10 s
                            \<lparr>mant = 0, ndigits = 0, prev = PrevOther, invalSep = False\<rparr>
         in (mant st, invalSep st \<or> prev st = PrevSeparator \<or> ndigits st = 0, rest)))"

definition scanSign :: "string \<Rightarrow> bool \<times> string" where
  "scanSign s =
     (case s of
        ch # cs \<Rightarrow> (if ch = CHR ''-'' then (True, cs) else if ch = CHR ''+'' then (False, cs) else (False, s))
      | [] \<Rightarrow> (False, []))"

text \<open>
  \<open>SetString s base\<close> is the call on a receiver that is zero before, the only way the
  source calls it: the value the receiver holds afterwards, and the success flag. When the
  call fails the documentation of math/big leaves the receiver undefined; the
  implementation leaves the digits it scanned, and the sign only when the scan itself
  reported no error.
\<close>

definition SetString :: "string \<Rightarrow> nat \<Rightarrow> int \<times> bool" where
  "SetString s base =
     (if s = [] then (0, False)
      else
        (let (neg, s1) = scanSign s;
             (n, err, rest) = natScan base s1
         in if err then (int n, False)
            else ((if neg then - int n else int n), rest = [])))"

section \<open>The unit table\<close>

text \<open>\<^verbatim>\<open>UnitToMultiplier\<close>: the switch over the lower-cased unit name. The error carries
  the name as it was given.\<close>

definition UnitToMultiplier :: "string \<Rightarrow> int outcome" where
  "UnitToMultiplier unit =
     (let u = ToLower unit in
      if u \<in> {'''', ''wei''} then Value 1
      else if u \<in> {''ada'', ''kwei'', ''kilowei''} then Value 1000
      else if u \<in> {''babbage'', ''mwei'', ''megawei''} then Value 1000000
      else if u \<in> {''shannon'', ''gwei'', ''gigawei''} then Value 1000000000
      else if u \<in> {''szazbo'', ''micro'', ''microether''} then Value 1000000000000
      else if u \<in> {''finney'', ''milli'', ''milliether''} then Value 1000000000000000
      else if u \<in> {''ether''} then Value 1000000000000000000
      else if u \<in> {''einstein'', ''kilo'', ''kiloether''} then Value 1000000000000000000000
      else if u \<in> {''mega'', ''megaether''} then Value 1000000000000000000000000
      else if u \<in> {''giga'', ''gigaether''} then Value 1000000000000000000000000000
      else if u \<in> {''tera'', ''teraether''} then Value 1000000000000000000000000000000
      else Failure (UnknownUnit unit))"

definition metricUnits :: "string list" where
  "metricUnits = [''Wei'', ''KWei'', ''MWei'', ''GWei'', ''Microether'', ''Milliether'',
                  ''Ether'', ''Kiloether'', ''Megaether'', ''Gigaether'', ''Teraether'']"

section \<open>Parsing: StringToWei\<close>

text \<open>
  The parsing helpers write through the pointer \<^verbatim>\<open>result\<close>. Here they return the value
  that \<^verbatim>\<open>*result\<close> holds when they return nil, and the error or panic otherwise.
\<close>

definition integerStringToWei :: "string \<Rightarrow> string \<Rightarrow> int outcome" where
  "integerStringToWei amount unit =
     (let (number, success) = SetString amount 10 in
      if \<not> success then Failure (FailedNumeric amount unit)
      else (case UnitToMultiplier unit of
              Value multiplier \<Rightarrow> Value (number * multiplier)
            | _ \<Rightarrow> Failure (FailedUnit amount unit)))"

text \<open>The loop that divides the multiplier by ten once for every digit of the fraction.\<close>

fun divideByTen :: "nat \<Rightarrow> int \<Rightarrow> int" where
  "divideByTen 0 multiplier = multiplier"
| "divideByTen (Suc i) multiplier = divideByTen i (multiplier div 10)"

text \<open>
  \<open>decimalStringToWei amount unit result\<close>, with \<open>result\<close> the value behind the pointer
  at the call. The error of the second \<^verbatim>\<open>UnitToMultiplier\<close> call is dropped by the
  source, which leaves \<^verbatim>\<open>multiplier\<close> nil for an unknown unit: \<open>None\<close> here. The first
  \<^verbatim>\<open>multiplier.Div\<close> then reads through the nil pointer. The source reads
  \<^verbatim>\<open>parts[1]\<close> only after the integer part is done, so an amount without a point
  (which \<^verbatim>\<open>StringToWei\<close> never passes) meets the errors of the integer part first and
  the index panic afterwards.
\<close>

definition decimalStringToWei :: "string \<Rightarrow> string \<Rightarrow> int \<Rightarrow> int outcome" where
  "decimalStringToWei amount unit result =
     (case Split amount CHR ''.'' of
        [] \<Rightarrow> Panic (IndexOutOfRange 0)
      | p0 # parts \<Rightarrow>
          (case (if p0 \<noteq> [] then
                   (case integerStringToWei p0 unit of
                      Value r \<Rightarrow> Value r
                    | Failure _ \<Rightarrow> Failure (FailedParse amount unit)
                    | Panic p \<Rightarrow> Panic p)
                 else Value result) of
             Value result1 \<Rightarrow>
               (let multiplier = (case UnitToMultiplier unit of Value m \<Rightarrow> Some m | _ \<Rightarrow> None)
                in case parts of
                     [] \<Rightarrow> Panic (IndexOutOfRange 1)
                   | p1 # _ \<Rightarrow>
                       (let trimmedDecimal = TrimRight p1 CHR ''0''
                        in if length trimmedDecimal = 0 then Value result1
                           else
                             (let decVal = fst (SetString trimmedDecimal 0) in
                              case multiplier of
                                None \<Rightarrow> Panic NilDereference
                              | Some m \<Rightarrow>
                                  (let m' = divideByTen (length trimmedDecimal) m in
                                   if m' = 0 then Failure FractionalWei
                                   else Value (result1 + m' * decVal)))))
           | Failure e \<Rightarrow> Failure e
           | Panic p \<Rightarrow> Panic p))"

definition StringToWei :: "string \<Rightarrow> int outcome" where
  "StringToWei input =
     (if input = [] then Failure EmptyValue
      else
        (case (if Contains input CHR '' '' then
                 (let s = Split input CHR '' '' in
                  if length s \<noteq> 2 then Failure (UnknownFormat input)
                  else if Contains (s ! 0) CHR ''.'' then decimalStringToWei (s ! 0) (s ! 1) 0
                  else integerStringToWei (s ! 0) (s ! 1))
               else Value (fst (SetString input 10))) of
           Value result \<Rightarrow> (if result < 0 then Failure NegativeWei else Value result)
         | Failure e \<Rightarrow> Failure e
         | Panic p \<Rightarrow> Panic p))"

section \<open>Formatting: WeiToString\<close>

text \<open>
  Step 1 of \<^verbatim>\<open>WeiToString\<close>. The loop divides with \<^verbatim>\<open>input.Div(input, thousand)\<close>,
  whose receiver is the big integer the caller passed, so the first component is also the
  value the caller's integer holds after the call.
\<close>

function stepDown :: "int \<Rightarrow> nat \<Rightarrow> int \<times> nat" where
  "stepDown input postfixPos =
     (if input \<ge> 1000 \<and> input mod 1000 = 0
      then stepDown (input div 1000) (postfixPos + 1)
      else (input, postfixPos))"
  by pat_completeness auto
termination
  by (relation "measure (\<lambda>(input, postfixPos). nat input)") auto

declare stepDown.simps [simp del]

text \<open>The two loops of step 2 that move \<^verbatim>\<open>postfixPos\<close> to the desired position.
  The counters of the source are Go ints that stay within a few multiples of the length of
  the number text, far from the bounds of the type: the positions are \<^typ>\<open>nat\<close> and
  \<^verbatim>\<open>decimalPlace\<close>, which goes below zero, is an \<^typ>\<open>int\<close>.\<close>

function moveUp :: "nat \<Rightarrow> nat \<Rightarrow> int \<Rightarrow> nat \<times> int" where
  "moveUp postfixPos desiredPostfixPos decimalPlace =
     (if postfixPos < desiredPostfixPos
      then moveUp (postfixPos + 1) desiredPostfixPos (decimalPlace - 3)
      else (postfixPos, decimalPlace))"
  by pat_completeness auto
termination
  by (relation "measure (\<lambda>(postfixPos, desiredPostfixPos, decimalPlace). desiredPostfixPos - postfixPos)") auto

declare moveUp.simps [simp del]

function moveDown :: "nat \<Rightarrow> nat \<Rightarrow> string \<Rightarrow> int \<Rightarrow> nat \<times> string \<times> int" where
  "moveDown postfixPos desiredPostfixPos outputValue decimalPlace =
     (if postfixPos > desiredPostfixPos
      then moveDown (postfixPos - 1) desiredPostfixPos (outputValue @ Repeat CHR ''0'' 3) (decimalPlace + 3)
      else (postfixPos, outputValue, decimalPlace))"
  by pat_completeness auto
termination
  by (relation "measure (\<lambda>(postfixPos, desiredPostfixPos, outputValue, decimalPlace). postfixPos)") auto

declare moveDown.simps [simp del]

definition desiredPos :: "nat \<Rightarrow> string \<Rightarrow> bool \<Rightarrow> nat" where
  "desiredPos postfixPos outputValue standard =
     (let d = (if length outputValue > 3
               then postfixPos + length outputValue div 3
                      - (if length outputValue mod 3 = 0 then 1 else 0)
               else postfixPos)
      in if d > 3 \<and> standard then 6 else d)"

definition placeDecimal :: "string \<Rightarrow> int \<Rightarrow> string" where
  "placeDecimal outputValue decimalPlace =
     (if decimalPlace \<le> 0
      then ''0.'' @ Repeat CHR ''0'' (nat (0 - decimalPlace)) @ outputValue
      else if decimalPlace < int (length outputValue)
      then take (nat decimalPlace) outputValue @ ''.'' @ drop (nat decimalPlace) outputValue
      else outputValue)"

definition trimDecimal :: "string \<Rightarrow> string" where
  "trimDecimal outputValue =
     (if Contains outputValue CHR ''.'' then TrimRight outputValue CHR ''0'' else outputValue)"

text \<open>What \<^verbatim>\<open>WeiToString\<close> has computed when it reaches its return statement: the value
  left in the caller's integer, the number text and the index into \<open>metricUnits\<close>.\<close>

definition layout :: "int \<Rightarrow> bool \<Rightarrow> int \<times> string \<times> nat" where
  "layout input standard =
     (let (input1, postfixPos0) = stepDown input 0;
          outputValue0 = Text input1;
          desiredPostfixPos = desiredPos postfixPos0 outputValue0 standard;
          (postfixPos1, decimalPlace1) =
             moveUp postfixPos0 desiredPostfixPos (int (length outputValue0));
          (postfixPos, outputValue1, decimalPlace) =
             moveDown postfixPos1 desiredPostfixPos outputValue0 decimalPlace1
      in (input1, trimDecimal (placeDecimal outputValue1 decimalPlace), postfixPos))"

text \<open>
  \<open>WeiToString input standard\<close>: the value the caller's integer holds after the call,
  and the outcome. The error result of the source is nil on every path; the only way not to
  return a string is the panic of indexing the eleven labels out of range.
\<close>

definition WeiToString :: "int \<Rightarrow> bool \<Rightarrow> int \<times> string outcome" where
  "WeiToString input standard =
     (let (input1, outputValue, postfixPos) = layout input standard
      in (input1,
          if postfixPos < length metricUnits
          then Value (outputValue @ '' '' @ metricUnits ! postfixPos)
          else Panic (IndexOutOfRange postfixPos)))"

section \<open>Number syntax\<close>

text \<open>
  The bytes \<^verbatim>\<open>'0'\<close> to \<^verbatim>\<open>'9'\<close>, and the strings that \<^verbatim>\<open>SetString\<close> accepts with
  base 10: an optional sign \<^verbatim>\<open>+\<close> or \<^verbatim>\<open>-\<close>, then one or more decimal digits.
\<close>

definition isDigit :: "char \<Rightarrow> bool" where
  "isDigit c = ((48::nat) \<le> of_char c \<and> of_char c \<le> (57::nat))"

definition signedDigits :: "string \<Rightarrow> bool" where
  "signedDigits s =
     (let t = (case s of
                 c # cs \<Rightarrow> (if c = CHR ''-'' \<or> c = CHR ''+'' then cs else s)
               | [] \<Rightarrow> [])
      in t \<noteq> [] \<and> list_all isDigit t)"

text \<open>A string of digits read as a decimal number.\<close>

definition decimalValue :: "string \<Rightarrow> nat" where
  "decimalValue s = foldl (\<lambda>v c. v * 10 + digitVal c) 0 s"

text \<open>
  The grammar of the specification for the numeric token, to compare with what the code
  accepts: \<^verbatim>\<open>INTEGER = [0-9]+\<close> and \<^verbatim>\<open>DECIMAL = [0-9]*"."[0-9]+\<close>.
\<close>

definition spec_INTEGER :: "string \<Rightarrow> bool" where
  "spec_INTEGER s = (s \<noteq> [] \<and> list_all isDigit s)"

definition spec_DECIMAL :: "string \<Rightarrow> bool" where
  "spec_DECIMAL s =
     (case Split s CHR ''.'' of
        [ip, fp] \<Rightarrow> list_all isDigit ip \<and> fp \<noteq> [] \<and> list_all isDigit fp
      | _ \<Rightarrow> False)"

section \<open>Evaluating the model\<close>

lemmas format_eval =
  WeiToString_def layout_def stepDown.simps Text_def natText.simps digitChar_def desiredPos_def
  moveUp.simps moveDown.simps placeDecimal_def trimDecimal_def Contains_def TrimRight_def
  Repeat_def metricUnits_def

lemmas parse_eval =
  StringToWei_def decimalStringToWei_def integerStringToWei_def UnitToMultiplier_def
  SetString_def scanSign_def natScan_def digitVal_def ToLower_def lowerChar_def Contains_def
  TrimRight_def

section \<open>Facts about the string and number functions\<close>

lemma Split_nonempty: "Split s c \<noteq> []"
  by (induction s) (auto split: list.splits)

lemma Split_no_separator: "c \<notin> set s \<Longrightarrow> Split s c = [s]"
  by (induction s) auto

lemma Split_first: "c \<notin> set a \<Longrightarrow> Split (a @ c # b) c = a # Split b c"
  by (induction a) auto

lemma TrimRight_chars: "set (TrimRight s c) \<subseteq> set s"
  unfolding TrimRight_def by (auto dest: set_dropWhileD)

lemma TrimRight_zeros:
  assumes "F \<noteq> []" "last F \<noteq> CHR ''0''"
  shows "TrimRight (F @ replicate z CHR ''0'') CHR ''0'' = F"
proof -
  obtain c cs where r: "rev F = c # cs" using assms(1) by (cases "rev F") auto
  then have "c = last F" using assms(1) hd_rev [of F] by simp
  then have c: "c \<noteq> CHR ''0''" using assms(2) by simp
  have "dropWhile (\<lambda>c. c = CHR ''0'') (replicate z CHR ''0'' @ rev F) = rev F"
    unfolding r using c by (simp add: dropWhile_append)
  then show ?thesis unfolding TrimRight_def by simp
qed

lemma lowerChar_idem: "lowerChar (lowerChar c) = lowerChar c"
  by (simp add: lowerChar_def)

lemma ToLower_idem: "ToLower (ToLower u) = ToLower u"
  by (simp add: ToLower_def lowerChar_idem)

lemma digitVal_isDigit: "(digitVal c < 10) = isDigit c"
  unfolding digitVal_def isDigit_def Let_def by auto

lemma isDigit_not_separator: "isDigit c \<Longrightarrow> c \<noteq> CHR ''_''"
  by (auto simp add: isDigit_def)

lemma isDigit_chars: "list_all isDigit s \<Longrightarrow> CHR '' '' \<notin> set s \<and> CHR ''.'' \<notin> set s"
  by (induction s) (auto simp add: isDigit_def)

lemma digitVal_digitChar: "d < 10 \<Longrightarrow> digitVal (digitChar d) = d"
proof -
  assume "d < 10"
  then have "d \<in> {0, 1, 2, 3, 4, 5, 6, 7, 8, 9}" by auto
  then show ?thesis
    by (elim insertE emptyE) (simp_all add: digitVal_def digitChar_def)
qed

lemma isDigit_digitChar: "d < 10 \<Longrightarrow> isDigit (digitChar d)"
  using digitVal_digitChar [of d] digitVal_isDigit [of "digitChar d"] by simp

lemma natText_chars: "set (natText n) \<subseteq> set ''0123456789''"
proof (induction n rule: natText.induct)
  case (1 n)
  have d: "\<And>k. k < 10 \<Longrightarrow> digitChar k \<in> set ''0123456789''"
    unfolding digitChar_def by (rule nth_mem) simp
  show ?case
  proof (cases "n < 10")
    case True
    then show ?thesis by (subst natText.simps) (use d [of n] in simp)
  next
    case False
    with 1 have "set (natText (n div 10)) \<subseteq> set ''0123456789''" by simp
    moreover have "digitChar (n mod 10) \<in> set ''0123456789''" by (rule d) simp
    ultimately show ?thesis using False by (subst natText.simps) simp
  qed
qed

lemma natText_length_pos: "0 < length (natText n)"
  by (subst natText.simps) simp

lemma natText_not_empty: "natText n \<noteq> []"
  using natText_length_pos [of n] by auto

lemma natText_bounds:
  "0 < n \<Longrightarrow> 10 ^ (length (natText n) - 1) \<le> n \<and> n < 10 ^ length (natText n)"
proof (induction n rule: natText.induct)
  case (1 n)
  show ?case
  proof (cases "n < 10")
    case True
    with 1(2) show ?thesis by (subst (1 2) natText.simps) simp
  next
    case False
    then have p: "0 < n div 10" by simp
    define L where "L = length (natText (n div 10))"
    have Lp: "0 < L" unfolding L_def by (rule natText_length_pos)
    from 1(1) [OF False p] have b: "10 ^ (L - 1) \<le> n div 10" "n div 10 < 10 ^ L"
      unfolding L_def by simp_all
    have len: "length (natText n) = Suc L"
      using False unfolding L_def by (subst natText.simps) simp
    have "10 * 10 ^ (L - 1) \<le> 10 * (n div 10)" using b(1) by simp
    also have "\<dots> \<le> n" by simp
    finally have lo: "10 ^ L \<le> n" using Lp by (cases L) simp_all
    have "Suc (n div 10) \<le> 10 ^ L" using b(2) by simp
    then have "10 * Suc (n div 10) \<le> 10 * 10 ^ L" by (rule mult_le_mono2)
    moreover have "n < 10 * Suc (n div 10)"
      using dividend_less_times_div [of 10 n] by (simp add: mult.commute)
    ultimately have hi: "n < 10 ^ Suc L" by simp
    show ?thesis unfolding len using lo hi by simp
  qed
qed

lemma natText_digits: "list_all isDigit (natText n)"
proof (induction n rule: natText.induct)
  case (1 n)
  show ?case
  proof (cases "n < 10")
    case True
    then show ?thesis by (subst natText.simps) (simp add: isDigit_digitChar)
  next
    case False
    with 1 have "list_all isDigit (natText (n div 10))" by simp
    then show ?thesis using False by (subst natText.simps) (simp add: isDigit_digitChar)
  qed
qed

lemma natText_value: "foldl (\<lambda>v c. v * 10 + digitVal c) 0 (natText n) = n"
proof (induction n rule: natText.induct)
  case (1 n)
  show ?case
  proof (cases "n < 10")
    case True
    then show ?thesis by (subst natText.simps) (simp add: digitVal_digitChar)
  next
    case False
    with 1 have "foldl (\<lambda>v c. v * 10 + digitVal c) 0 (natText (n div 10)) = n div 10" by simp
    then show ?thesis using False by (subst natText.simps) (simp add: digitVal_digitChar)
  qed
qed

lemma natText_no_space: "CHR '' '' \<notin> set (natText n)"
proof -
  have "CHR '' '' \<notin> set ''0123456789''" by simp
  then show ?thesis using natText_chars [of n] by blast
qed

lemma Text_no_space: "CHR '' '' \<notin> set (Text x)"
  unfolding Text_def by (simp add: natText_no_space)

lemma Text_no_point: "CHR ''.'' \<notin> set (Text x)"
proof -
  have "CHR ''.'' \<notin> set ''0123456789''" by simp
  then have "CHR ''.'' \<notin> set (natText n)" for n using natText_chars [of n] by blast
  then show ?thesis unfolding Text_def by simp
qed

lemma Text_short: "0 \<le> x \<Longrightarrow> x < 1000 \<Longrightarrow> length (Text x) \<le> 3"
proof -
  assume x: "0 \<le> x" "x < 1000"
  define n where "n = nat x"
  have T: "Text x = natText n" unfolding Text_def n_def using x by simp
  show ?thesis
  proof (cases "n = 0")
    case True
    then show ?thesis unfolding T by (simp add: natText.simps)
  next
    case False
    then have "0 < n" by simp
    from natText_bounds [OF this] have "10 ^ (length (natText n) - 1) \<le> n" by simp
    moreover have "n < 10 ^ 3" using x by (simp add: n_def)
    ultimately have "(10::nat) ^ (length (natText n) - 1) < 10 ^ 3" by (rule le_less_trans)
    then have "length (natText n) - 1 < 3" by (rule power_less_imp_less_exp [rotated]) simp
    then show ?thesis unfolding T by simp
  qed
qed

lemma scanDigits_all:
  "list_all isDigit s \<Longrightarrow>
     snd (scanDigits False 10 s st) = [] \<and> ndigits (fst (scanDigits False 10 s st)) = ndigits st + length s"
proof (induction s arbitrary: st)
  case Nil
  then show ?case by simp
next
  case (Cons c s)
  then have "digitVal c < 10" "list_all isDigit s" by (simp_all add: digitVal_isDigit)
  with Cons.IH show ?case by simp
qed

lemma scanDigits_stops:
  "\<not> list_all isDigit s \<Longrightarrow> snd (scanDigits False 10 s st) \<noteq> []"
proof (induction s arbitrary: st)
  case Nil
  then show ?case by simp
next
  case (Cons c s)
  show ?case
  proof (cases "isDigit c")
    case True
    then have "digitVal c < 10" by (simp add: digitVal_isDigit)
    moreover from True Cons.prems have "\<not> list_all isDigit s" by simp
    ultimately show ?thesis using Cons.IH by simp
  next
    case False
    then have "\<not> digitVal c < 10" by (simp add: digitVal_isDigit)
    then show ?thesis by simp
  qed
qed

lemma scanDigits_value:
  "list_all isDigit s \<Longrightarrow>
     mant (fst (scanDigits False 10 s st)) = foldl (\<lambda>v c. v * 10 + digitVal c) (mant st) s"
proof (induction s arbitrary: st)
  case Nil
  then show ?case by simp
next
  case (Cons c s)
  then have "digitVal c < 10" "list_all isDigit s" by (simp_all add: digitVal_isDigit)
  with Cons.IH show ?case by simp
qed

lemma scanDigits_digits:
  "list_all isDigit s \<Longrightarrow>
     scanDigits sepOk 10 s st =
       (if s = [] then st
        else st\<lparr>mant := foldl (\<lambda>v c. v * 10 + digitVal c) (mant st) s,
                ndigits := ndigits st + length s, prev := PrevDigit\<rparr>, [])"
proof (induction s arbitrary: st)
  case Nil
  then show ?case by simp
next
  case (Cons c s)
  then have c: "digitVal c < 10" "c \<noteq> CHR ''_''" and s: "list_all isDigit s"
    by (simp_all add: digitVal_isDigit isDigit_not_separator)
  show ?case
    using c Cons.IH [OF s] by (cases "s = []") simp_all
qed

lemma natScan_ten:
  "(\<not> fst (snd (natScan 10 s)) \<and> snd (snd (natScan 10 s)) = []) = (s \<noteq> [] \<and> list_all isDigit s)"
proof (cases "list_all isDigit s")
  case True
  from scanDigits_all [OF True, of "\<lparr>mant = 0, ndigits = 0, prev = PrevOther, invalSep = False\<rparr>"]
  show ?thesis using True
    unfolding natScan_def Let_def by (simp add: split_beta)
next
  case False
  from scanDigits_stops [OF False, of "\<lparr>mant = 0, ndigits = 0, prev = PrevOther, invalSep = False\<rparr>"]
  show ?thesis using False
    unfolding natScan_def Let_def by (simp add: split_beta)
qed

lemma SetString_success: "snd (SetString s 10) = signedDigits s"
proof (cases s)
  case Nil
  then show ?thesis by (simp add: SetString_def signedDigits_def)
next
  case (Cons c cs)
  define t where "t = (if c = CHR ''-'' \<or> c = CHR ''+'' then cs else s)"
  have sg: "snd (scanSign s) = t"
    unfolding scanSign_def t_def Cons by simp
  have "snd (SetString s 10) = (\<not> fst (snd (natScan 10 t)) \<and> snd (snd (natScan 10 t)) = [])"
    unfolding SetString_def Let_def using Cons sg by (simp add: split_beta)
  also have "\<dots> = (t \<noteq> [] \<and> list_all isDigit t)" by (rule natScan_ten)
  also have "\<dots> = signedDigits s"
    unfolding signedDigits_def Let_def t_def Cons by simp
  finally show ?thesis .
qed

lemma SetString_natText: "SetString (natText n) 10 = (int n, True)"
proof -
  define s where "s = natText n"
  have d: "list_all isDigit s" unfolding s_def by (rule natText_digits)
  have ne: "s \<noteq> []" unfolding s_def by (rule natText_not_empty)
  then obtain c cs where c: "s = c # cs" by (cases s) auto
  with d have "isDigit c" by simp
  then have "c \<noteq> CHR ''-''" "c \<noteq> CHR ''+''" by (auto simp add: isDigit_def)
  then have sg: "scanSign s = (False, s)" unfolding scanSign_def c by simp
  define st0 where "st0 = \<lparr>mant = 0, ndigits = 0, prev = PrevOther, invalSep = False\<rparr>"
  have v: "mant (fst (scanDigits False 10 s st0)) = n"
    using scanDigits_value [OF d, of st0] natText_value [of n] by (simp add: st0_def s_def)
  have r: "snd (scanDigits False 10 s st0) = []" "ndigits (fst (scanDigits False 10 s st0)) = length s"
    using scanDigits_all [OF d, of st0] by (simp_all add: st0_def)
  have "natScan 10 s = (n, False, [])"
    unfolding natScan_def Let_def st0_def [symmetric] using v r ne by (simp add: split_beta)
  then show ?thesis
    unfolding s_def [symmetric] SetString_def Let_def sg using ne by simp
qed

lemma Text_SetString: "0 \<le> x \<Longrightarrow> SetString (Text x) 10 = (x, True)"
  unfolding Text_def using SetString_natText [of "nat x"] by simp

lemma SetString_digits_ten:
  assumes "list_all isDigit s" "s \<noteq> []"
  shows "SetString s 10 = (int (decimalValue s), True)"
proof -
  obtain c cs where c: "s = c # cs" using assms(2) by (cases s) auto
  with assms(1) have "isDigit c" by simp
  then have "c \<noteq> CHR ''-''" "c \<noteq> CHR ''+''" by (auto simp add: isDigit_def)
  then have sg: "scanSign s = (False, s)" unfolding scanSign_def c by simp
  have "natScan 10 s = (decimalValue s, False, [])"
    unfolding natScan_def Let_def decimalValue_def
    using assms by (simp add: scanDigits_digits)
  then show ?thesis
    unfolding SetString_def Let_def sg using assms(2) by simp
qed

lemma SetString_digits_zero:
  assumes "list_all isDigit s" "s \<noteq> []" "hd s \<noteq> CHR ''0''"
  shows "SetString s 0 = (int (decimalValue s), True)"
proof -
  obtain c cs where c: "s = c # cs" using assms(2) by (cases s) auto
  with assms(1) have "isDigit c" by simp
  then have "c \<noteq> CHR ''-''" "c \<noteq> CHR ''+''" by (auto simp add: isDigit_def)
  then have sg: "scanSign s = (False, s)" unfolding scanSign_def c by simp
  have "natScan 0 s = (decimalValue s, False, [])"
    unfolding natScan_def Let_def decimalValue_def
    using assms by (simp add: scanDigits_digits)
  then show ?thesis
    unfolding SetString_def Let_def sg using assms(2) by simp
qed

lemma decimalValue_empty: "decimalValue [] = 0"
  by (simp add: decimalValue_def)

section \<open>Facts about the unit table\<close>

lemma UnitToMultiplier_cases:
  "UnitToMultiplier u = Value m \<Longrightarrow>
     m \<in> {1, 1000, 1000000, 1000000000, 1000000000000, 1000000000000000,
          1000000000000000000, 1000000000000000000000, 1000000000000000000000000,
          1000000000000000000000000000, 1000000000000000000000000000000}"
  unfolding UnitToMultiplier_def Let_def by (simp split: if_splits)

lemma UnitToMultiplier_lower:
  "(UnitToMultiplier (ToLower u) = Value m) = (UnitToMultiplier u = Value m)"
  unfolding UnitToMultiplier_def Let_def ToLower_idem by (simp split: if_splits)

lemma thousand_power_exists:
  "k \<le> 10 \<Longrightarrow> m = (1000::int) ^ k \<Longrightarrow> \<exists>k\<le>10::nat. m = 1000 ^ k"
  by blast

lemma UnitToMultiplier_power:
  assumes "UnitToMultiplier u = Value m"
  shows "\<exists>k\<le>10. m = 1000 ^ k"
  using UnitToMultiplier_cases [OF assms]
    thousand_power_exists [of 0 m] thousand_power_exists [of 1 m] thousand_power_exists [of 2 m]
    thousand_power_exists [of 3 m] thousand_power_exists [of 4 m] thousand_power_exists [of 5 m]
    thousand_power_exists [of 6 m] thousand_power_exists [of 7 m] thousand_power_exists [of 8 m]
    thousand_power_exists [of 9 m] thousand_power_exists [of 10 m]
  by (elim insertE emptyE) simp_all

lemma below_eleven:
  assumes "P 0" "P 1" "P 2" "P 3" "P 4" "P 5" "P 6" "P 7" "P 8" "P 9" "P 10"
  shows "k \<le> 10 \<Longrightarrow> P (k::nat)"
proof -
  assume k: "k \<le> 10"
  have e: "(11::nat) = Suc (Suc (Suc (Suc (Suc (Suc (Suc (Suc (Suc (Suc (Suc 0))))))))))" by simp
  have "\<forall>i<11. P i"
    unfolding e All_less_Suc using assms by (simp add: numeral_eq_Suc)
  with k show ?thesis by simp
qed

lemma metricUnits_multiplier:
  "k \<le> 10 \<Longrightarrow> UnitToMultiplier (metricUnits ! k) = Value (1000 ^ k)"
  by (erule below_eleven [rotated -1])
     (simp_all add: metricUnits_def UnitToMultiplier_def ToLower_def lowerChar_def)

lemma metricUnits_no_space: "k \<le> 10 \<Longrightarrow> CHR '' '' \<notin> set (metricUnits ! k)"
  by (erule below_eleven [rotated -1]) (simp_all add: metricUnits_def)

lemma thousand_div_zero:
  "((1000::int) ^ k div 10 ^ L = 0) = (\<not> 10 ^ L dvd (1000::int) ^ k)"
proof -
  have t: "(1000::int) ^ k = 10 ^ (3 * k)" by (simp add: power_mult)
  show ?thesis
  proof (cases "L \<le> 3 * k")
    case True
    then have e: "(10::int) ^ (3 * k) = 10 ^ L * 10 ^ (3 * k - L)"
      by (simp add: power_add [symmetric])
    have "(10::int) ^ (3 * k) div 10 ^ L = 10 ^ (3 * k - L)"
      unfolding e by simp
    moreover have "(10::int) ^ L dvd 10 ^ (3 * k)" unfolding e by simp
    ultimately show ?thesis unfolding t by simp
  next
    case False
    then have lt: "(10::int) ^ (3 * k) < 10 ^ L" by (intro power_strict_increasing) simp_all
    then have "(10::int) ^ (3 * k) div 10 ^ L = 0" by (simp add: div_pos_pos_trivial)
    moreover have "\<not> (10::int) ^ L dvd 10 ^ (3 * k)"
    proof
      assume "(10::int) ^ L dvd 10 ^ (3 * k)"
      then have "(10::int) ^ L \<le> 10 ^ (3 * k)" by (rule zdvd_imp_le) simp
      with lt show False by simp
    qed
    ultimately show ?thesis unfolding t by simp
  qed
qed

section \<open>Facts about the parser\<close>

lemma integerStringToWei_numeric:
  "(integerStringToWei amount unit = Failure (FailedNumeric amount unit)) = (\<not> signedDigits amount)"
proof -
  obtain number success where s: "SetString amount 10 = (number, success)"
    by (cases "SetString amount 10")
  then have "success = signedDigits amount"
    using SetString_success [of amount] by simp
  then show ?thesis
    unfolding integerStringToWei_def s by (auto split: outcome.splits)
qed

lemma StringToWei_integer_token:
  assumes "CHR '' '' \<notin> set num" "CHR '' '' \<notin> set unit" "CHR ''.'' \<notin> set num"
  shows "StringToWei (num @ '' '' @ unit) =
           (case integerStringToWei num unit of
              Value result \<Rightarrow> (if result < 0 then Failure NegativeWei else Value result)
            | Failure e \<Rightarrow> Failure e
            | Panic p \<Rightarrow> Panic p)"
proof -
  have sp: "Split (num @ CHR '' '' # unit) CHR '' '' = [num, unit]"
    using assms(1,2) by (simp add: Split_first Split_no_separator)
  show ?thesis
    unfolding StringToWei_def using assms(3) by (simp add: Contains_def sp)
qed

lemma StringToWei_decimal_token:
  assumes "CHR '' '' \<notin> set num" "CHR '' '' \<notin> set unit" "CHR ''.'' \<in> set num"
  shows "StringToWei (num @ '' '' @ unit) =
           (case decimalStringToWei num unit 0 of
              Value result \<Rightarrow> (if result < 0 then Failure NegativeWei else Value result)
            | Failure e \<Rightarrow> Failure e
            | Panic p \<Rightarrow> Panic p)"
proof -
  have sp: "Split (num @ CHR '' '' # unit) CHR '' '' = [num, unit]"
    using assms(1,2) by (simp add: Split_first Split_no_separator)
  show ?thesis
    unfolding StringToWei_def using assms(3) by (simp add: Contains_def sp)
qed

lemma decimalStringToWei_integer_part:
  assumes "CHR ''.'' \<notin> set ip" "ip \<noteq> []" "\<not> signedDigits ip"
  shows "decimalStringToWei (ip @ ''.'' @ rest) unit result = Failure (FailedParse (ip @ ''.'' @ rest) unit)"
proof -
  obtain p1 ps where r: "Split rest CHR ''.'' = p1 # ps"
    using Split_nonempty [of rest "CHR ''.''"] by (cases "Split rest CHR ''.''") auto
  have sp: "Split (ip @ CHR ''.'' # rest) CHR ''.'' = ip # p1 # ps"
    using assms(1) by (simp add: Split_first r)
  have "integerStringToWei ip unit = Failure (FailedNumeric ip unit)"
    using assms(3) by (simp add: integerStringToWei_numeric)
  then show ?thesis
    unfolding decimalStringToWei_def using assms(2) by (simp add: sp)
qed

lemma divideByTen_closed: "divideByTen n m = m div 10 ^ n"
proof (induction n arbitrary: m)
  case 0
  then show ?case by simp
next
  case (Suc n)
  then show ?case by (simp add: zdiv_zmult2_eq)
qed

section \<open>Facts about the formatter\<close>

lemma moveUp_closed:
  "moveUp p d x = (max p d, x - 3 * int (d - p))"
proof (induction p d x rule: moveUp.induct)
  case (1 p d x)
  show ?case
  proof (cases "p < d")
    case True
    with 1 show ?thesis by (subst moveUp.simps) (simp add: max_def)
  next
    case False
    then show ?thesis by (subst moveUp.simps) (simp add: max_def)
  qed
qed

lemma moveDown_closed:
  "moveDown p d ov x = (min p d, ov @ replicate (3 * (p - d)) CHR ''0'', x + 3 * int (p - d))"
proof (induction p d ov x rule: moveDown.induct)
  case (1 p d ov x)
  show ?case
  proof (cases "p > d")
    case True
    then have e: "3 * (p - d) = 3 + 3 * (p - 1 - d)" by simp
    from True have m: "min (p - 1) d = d" "min p d = d" by simp_all
    from True have i: "x + 3 + 3 * int (p - 1 - d) = x + 3 * int (p - d)" by simp
    have "moveDown p d ov x = moveDown (p - 1) d (ov @ Repeat CHR ''0'' 3) (x + 3)"
      using True by (subst moveDown.simps) simp
    also have "\<dots> = (min (p - 1) d, (ov @ Repeat CHR ''0'' 3) @ replicate (3 * (p - 1 - d)) CHR ''0'',
        x + 3 + 3 * int (p - 1 - d))"
      using 1 True by simp
    also have "\<dots> = (min p d, ov @ replicate (3 * (p - d)) CHR ''0'', x + 3 * int (p - d))"
      unfolding m i e Repeat_def replicate_add by simp
    finally show ?thesis .
  next
    case False
    then show ?thesis by (subst moveDown.simps) (simp add: min_def)
  qed
qed

lemma desiredPos_standard:
  "desiredPos k ov True \<in> {0, 1, 2, 3, 6}"
  unfolding desiredPos_def Let_def by auto

lemma pred_div_three: "0 < (n::nat) \<Longrightarrow> (n - 1) div 3 = n div 3 - (if n mod 3 = 0 then 1 else 0)"
proof -
  assume pos: "0 < n"
  obtain q r where n: "n = 3 * q + r" and r: "r < 3"
    by (metis mod_less_divisor mult_div_mod_eq zero_less_numeral)
  show ?thesis
  proof (cases "r = 0")
    case True
    with pos n obtain q' where q: "q = Suc q'" by (cases q) auto
    have "n - 1 = 3 * q' + 2" using n True q by simp
    then have "(n - 1) div 3 = q'" by simp
    moreover have "n div 3 = q" "n mod 3 = 0" using n True by simp_all
    ultimately show ?thesis using q by simp
  next
    case False
    then have "n - 1 = 3 * q + (r - 1)" "r - 1 < 3" using n r by simp_all
    then have "(n - 1) div 3 = q" by simp
    moreover have "n div 3 = q" "n mod 3 = r" using n r by simp_all
    ultimately show ?thesis using False by simp
  qed
qed

lemma desiredPos_closed:
  assumes "length ov > 0"
  shows "desiredPos k ov False = k + (length ov - 1) div 3"
proof (cases "length ov > 3")
  case True
  then have "length ov div 3 \<ge> 1" by simp
  then show ?thesis
    unfolding desiredPos_def Let_def using True pred_div_three [OF assms] by simp
next
  case False
  then have "(length ov - 1) div 3 = 0" by simp
  then show ?thesis
    unfolding desiredPos_def Let_def using False by simp
qed

lemma layout_closed:
  "layout a std =
     (let r = fst (stepDown a 0); k = snd (stepDown a 0); d = desiredPos k (Text r) std
      in (r,
          trimDecimal (placeDecimal (Text r @ replicate (3 * (k - d)) CHR ''0'')
             (int (length (Text r)) - 3 * int (d - k) + 3 * int (k - d))),
          d))"
proof -
  obtain r k where s: "stepDown a 0 = (r, k)" by (cases "stepDown a 0")
  define d where "d = desiredPos k (Text r) std"
  have m: "min (max k d) d = d" by simp
  show ?thesis
    unfolding layout_def s Let_def prod.case fst_conv snd_conv d_def [symmetric]
      moveUp_closed moveDown_closed m
    by (simp add: max_def)
qed

lemma stepDown_invariant:
  "0 \<le> a \<Longrightarrow> stepDown a p = (r, q) \<Longrightarrow>
     p \<le> q \<and> a = r * 1000 ^ (q - p) \<and> 0 \<le> r \<and> (r < 1000 \<or> r mod 1000 \<noteq> 0)"
proof (induction a p arbitrary: r q rule: stepDown.induct)
  case (1 input postfixPos)
  show ?case
  proof (cases "input \<ge> 1000 \<and> input mod 1000 = 0")
    case True
    then have s: "stepDown (input div 1000) (postfixPos + 1) = (r, q)"
      using 1(3) by (subst (asm) stepDown.simps) simp
    have nn: "0 \<le> input div 1000" using 1(2) by simp
    from 1(1) [OF True nn s]
    have ih: "postfixPos + 1 \<le> q" "input div 1000 = r * 1000 ^ (q - (postfixPos + 1))"
      "0 \<le> r" "r < 1000 \<or> r mod 1000 \<noteq> 0" by simp_all
    have e: "q - postfixPos = Suc (q - (postfixPos + 1))" using ih(1) by simp
    have "input = 1000 * (input div 1000)" using True by (simp add: mod_eq_0_iff_dvd)
    also have "\<dots> = r * 1000 ^ (q - postfixPos)" unfolding e ih(2) by simp
    finally show ?thesis using ih by simp
  next
    case False
    have "stepDown input postfixPos = (input, postfixPos)"
      using False by (subst stepDown.simps) auto
    then have "(r, q) = (input, postfixPos)"
      using 1(3) by simp
    then show ?thesis using False 1(2) by auto
  qed
qed

lemma stepDown_zero: "stepDown 0 0 = (0, 0)"
  by (simp add: stepDown.simps)

lemma stepDown_small: "a < 1000 \<Longrightarrow> stepDown a p = (a, p)"
  by (subst stepDown.simps) simp

lemma stepDown_multiple:
  "0 < d \<Longrightarrow> d < 1000 \<Longrightarrow> stepDown (d * 1000 ^ k) p = (d, p + k)"
proof (induction k arbitrary: p)
  case 0
  then show ?case by (simp add: stepDown_small)
next
  case (Suc k)
  have ge: "1000 \<le> d * 1000 ^ Suc k"
  proof -
    have "1 * 1000 \<le> (d * 1000 ^ k) * 1000"
      using Suc.prems(1) by (intro mult_right_mono) (simp_all add: int_one_le_iff_zero_less)
    then show ?thesis by (simp add: mult.assoc)
  qed
  have dv: "d * 1000 ^ Suc k mod 1000 = 0" "d * 1000 ^ Suc k div 1000 = d * 1000 ^ k" by simp_all
  have "stepDown (d * 1000 ^ Suc k) p = stepDown (d * 1000 ^ k) (p + 1)"
    using ge dv by (subst stepDown.simps) (simp del: power_Suc)
  also have "\<dots> = (d, p + Suc k)" using Suc.IH [OF Suc.prems] by simp
  finally show ?case .
qed

lemma tier_bound:
  assumes "0 < n"
  shows "(k + (length (natText n) - 1) div 3 \<le> 10) = (n * 1000 ^ k < 10 ^ 33)"
proof -
  define L where "L = length (natText n)"
  have Lp: "0 < L" unfolding L_def by (rule natText_length_pos)
  from natText_bounds [OF assms] have b: "10 ^ (L - 1) \<le> n" "n < 10 ^ L"
    unfolding L_def by simp_all
  have t: "(1000::nat) ^ k = 10 ^ (3 * k)"
    by (simp add: power_mult)
  have up: "n * 10 ^ (3 * k) < 10 ^ (L + 3 * k)"
    using b(2) by (simp add: power_add)
  have lo: "10 ^ (L - 1 + 3 * k) \<le> n * 10 ^ (3 * k)"
    using b(1) by (simp add: power_add)
  show ?thesis unfolding L_def [symmetric] t
  proof
    assume "k + (L - 1) div 3 \<le> 10"
    then have "L + 3 * k \<le> 33" by arith
    then have "(10::nat) ^ (L + 3 * k) \<le> 10 ^ 33" by (rule power_increasing) simp
    with up show "n * 10 ^ (3 * k) < 10 ^ 33" by (rule less_le_trans)
  next
    assume "n * 10 ^ (3 * k) < 10 ^ 33"
    with lo have "(10::nat) ^ (L - 1 + 3 * k) < 10 ^ 33" by (rule le_less_trans)
    then have "L - 1 + 3 * k < 33" by (rule power_less_imp_less_exp [rotated]) simp
    then show "k + (L - 1) div 3 \<le> 10" by arith
  qed
qed

lemma trimDecimal_chars: "set (trimDecimal s) \<subseteq> set s"
  unfolding trimDecimal_def using TrimRight_chars by auto

lemma placeDecimal_chars: "c \<in> set (placeDecimal ov dp) \<Longrightarrow> c \<in> set ov \<or> c = CHR ''0'' \<or> c = CHR ''.''"
  unfolding placeDecimal_def Repeat_def by (auto split: if_splits dest: in_set_takeD in_set_dropD)

lemma WeiToString_closed:
  "snd (WeiToString a std) =
     (let r = fst (stepDown a 0); k = snd (stepDown a 0); d = desiredPos k (Text r) std;
          num = trimDecimal (placeDecimal (Text r @ replicate (3 * (k - d)) CHR ''0'')
                  (int (length (Text r)) - 3 * int (d - k) + 3 * int (k - d)))
      in if d < 11 then Value (num @ '' '' @ metricUnits ! d) else Panic (IndexOutOfRange d))"
proof -
  have l: "length metricUnits = 11" by (simp add: metricUnits_def)
  show ?thesis
    unfolding WeiToString_def layout_closed Let_def prod.case snd_conv l ..
qed

lemma final_tier:
  assumes "0 \<le> a"
  shows "(desiredPos (snd (stepDown a 0)) (Text (fst (stepDown a 0))) False \<le> 10) = (a < 10 ^ 33)"
proof (cases "a = 0")
  case True
  then show ?thesis
    by (simp add: stepDown_zero Text_def natText.simps desiredPos_def)
next
  case False
  obtain r k where s: "stepDown a 0 = (r, k)" by (cases "stepDown a 0")
  from stepDown_invariant [OF assms s] have a: "a = r * 1000 ^ k" and r: "0 \<le> r" by simp_all
  from a False have rp: "0 < r" using r by (cases "r = 0") simp_all
  define n where "n = nat r"
  have np: "0 < n" and rn: "r = int n" using rp by (simp_all add: n_def)
  have T: "Text r = natText n" unfolding Text_def n_def using rp by simp
  have "desiredPos k (Text r) False = k + (length (natText n) - 1) div 3"
    unfolding T by (rule desiredPos_closed) (rule natText_length_pos)
  moreover have "(a < 10 ^ 33) = (n * 1000 ^ k < 10 ^ 33)"
  proof -
    have "a = int (n * 1000 ^ k)" unfolding a rn by simp
    moreover have "(10::int) ^ 33 = int (10 ^ 33)" by simp
    ultimately show ?thesis by (simp only: of_nat_less_iff)
  qed
  ultimately show ?thesis
    unfolding s fst_conv snd_conv using tier_bound [OF np, of k] by simp
qed

lemma number_text_no_space:
  "CHR '' '' \<notin> set (trimDecimal (placeDecimal (Text r @ replicate n CHR ''0'') dp))"
proof
  assume "CHR '' '' \<in> set (trimDecimal (placeDecimal (Text r @ replicate n CHR ''0'') dp))"
  then have "CHR '' '' \<in> set (placeDecimal (Text r @ replicate n CHR ''0'') dp)"
    using trimDecimal_chars by blast
  then have "CHR '' '' \<in> set (Text r @ replicate n CHR ''0'')"
    using placeDecimal_chars [of "CHR '' ''"] by blast
  then show False using Text_no_space [of r] by auto
qed

lemma tier_le:
  assumes "0 < n"
  shows "(k + (length (natText n) - 1) div 3 \<le> t) = (n * 1000 ^ k < 1000 ^ Suc t)"
proof -
  define L where "L = length (natText n)"
  have Lp: "0 < L" unfolding L_def by (rule natText_length_pos)
  from natText_bounds [OF assms] have b: "10 ^ (L - 1) \<le> n" "n < 10 ^ L"
    unfolding L_def by simp_all
  have t: "(1000::nat) ^ j = 10 ^ (3 * j)" for j
    by (simp add: power_mult)
  have up: "n * 10 ^ (3 * k) < 10 ^ (L + 3 * k)"
    using b(2) by (simp add: power_add)
  have lo: "10 ^ (L - 1 + 3 * k) \<le> n * 10 ^ (3 * k)"
    using b(1) by (simp add: power_add)
  show ?thesis unfolding L_def [symmetric] t
  proof
    assume "k + (L - 1) div 3 \<le> t"
    then have "L + 3 * k \<le> 3 * Suc t" using Lp by arith
    then have "(10::nat) ^ (L + 3 * k) \<le> 10 ^ (3 * Suc t)" by (rule power_increasing) simp
    with up show "n * 10 ^ (3 * k) < 10 ^ (3 * Suc t)" by (rule less_le_trans)
  next
    assume "n * 10 ^ (3 * k) < 10 ^ (3 * Suc t)"
    with lo have "(10::nat) ^ (L - 1 + 3 * k) < 10 ^ (3 * Suc t)" by (rule le_less_trans)
    then have "L - 1 + 3 * k < 3 * Suc t" by (rule power_less_imp_less_exp [rotated]) simp
    then show "k + (L - 1) div 3 \<le> t" by arith
  qed
qed

lemma unclamped_tier:
  assumes "0 \<le> a"
  shows "(desiredPos (snd (stepDown a 0)) (Text (fst (stepDown a 0))) False \<le> t) = (a < 1000 ^ Suc t)"
proof (cases "a = 0")
  case True
  then show ?thesis
    by (simp add: stepDown_zero Text_def natText.simps desiredPos_def)
next
  case False
  obtain r k where s: "stepDown a 0 = (r, k)" by (cases "stepDown a 0")
  from stepDown_invariant [OF assms s] have a: "a = r * 1000 ^ k" and r: "0 \<le> r" by simp_all
  from a False have rp: "0 < r" using r by (cases "r = 0") simp_all
  define n where "n = nat r"
  have np: "0 < n" and rn: "r = int n" using rp by (simp_all add: n_def)
  have T: "Text r = natText n" unfolding Text_def n_def using rp by simp
  have "desiredPos k (Text r) False = k + (length (natText n) - 1) div 3"
    unfolding T by (rule desiredPos_closed) (rule natText_length_pos)
  moreover have "(a < 1000 ^ Suc t) = (n * 1000 ^ k < 1000 ^ Suc t)"
  proof -
    have "a = int (n * 1000 ^ k)" unfolding a rn by simp
    moreover have "(1000::int) ^ Suc t = int (1000 ^ Suc t)" by simp
    ultimately show ?thesis by (simp only: of_nat_less_iff)
  qed
  ultimately show ?thesis
    unfolding s fst_conv snd_conv using tier_le [OF np, of k t] by simp
qed

lemma desiredPos_clamp:
  "desiredPos k ov True = (if 3 < desiredPos k ov False then 6 else desiredPos k ov False)"
  unfolding desiredPos_def Let_def by simp

section \<open>The round trip of formatting and parsing (C1)\<close>

text \<open>
  C1. The round trip fails on the amount 1012000000000000000 (1012 after five exact steps
  of 1000): it is formatted as "1.012 Ether", and that string parses to
  1010000000000000000. The parser reads the fraction digits "012" with base 0, where a
  leading 0 selects octal, so they count as 10 and not as 12.
\<close>

theorem roundtrip_fails_on_fraction:
  "snd (WeiToString 1012000000000000000 False) = Value ''1.012 Ether''
   \<and> StringToWei ''1.012 Ether'' = Value 1010000000000000000"
  by (simp add: format_eval parse_eval)

text \<open>
  Where the round trip does hold: an amount d * 1000^k with 0 < d < 1000 and k at most 10 is
  written without a fraction, as d and the k-th label, and that string parses back to the
  amount. So does "0 Wei".
\<close>

lemma roundtrip_whole_units:
  assumes "0 < d" "d < 1000" "k \<le> 10"
  shows "snd (WeiToString (d * 1000 ^ k) False) = Value (Text d @ '' '' @ metricUnits ! k)
       \<and> StringToWei (Text d @ '' '' @ metricUnits ! k) = Value (d * 1000 ^ k)"
proof
  have s: "stepDown (d * 1000 ^ k) 0 = (d, k)"
    using stepDown_multiple [OF assms(1,2), of k 0] by simp
  have len: "length (Text d) \<le> 3" "0 < length (Text d)"
    using Text_short [of d] assms(1,2) Text_SetString [of d] by (auto simp add: SetString_def)
  have dp: "desiredPos k (Text d) False = k"
    unfolding desiredPos_def Let_def using len by simp
  have pd: "placeDecimal (Text d) (int (length (Text d))) = Text d"
    unfolding placeDecimal_def using len by simp
  have td: "trimDecimal (Text d) = Text d"
    unfolding trimDecimal_def Contains_def using Text_no_point [of d] by simp
  show "snd (WeiToString (d * 1000 ^ k) False) = Value (Text d @ '' '' @ metricUnits ! k)"
    unfolding WeiToString_closed s Let_def fst_conv snd_conv dp using assms(3) pd td by simp
next
  have i: "integerStringToWei (Text d) (metricUnits ! k) = Value (d * 1000 ^ k)"
    unfolding integerStringToWei_def
    using Text_SetString [of d] assms(1) metricUnits_multiplier [OF assms(3)] by simp
  have nn: "\<not> d * 1000 ^ k < 0" using assms(1) by (simp add: mult_less_0_iff)
  show "StringToWei (Text d @ '' '' @ metricUnits ! k) = Value (d * 1000 ^ k)"
    using StringToWei_integer_token [OF Text_no_space metricUnits_no_space [OF assms(3)] Text_no_point, of d]
      i nn by simp
qed

lemma roundtrip_zero:
  "snd (WeiToString 0 False) = Value ''0 Wei'' \<and> StringToWei ''0 Wei'' = Value 0"
  by (simp add: format_eval parse_eval)

lemma roundtrip_examples:
  "snd (WeiToString 1500000000000000000 False) = Value ''1.5 Ether''"
  "StringToWei ''1.5 Ether'' = Value 1500000000000000000"
  "snd (WeiToString 1001 False) = Value ''1.001 KWei''"
  "StringToWei ''1.001 KWei'' = Value 1001"
  "snd (WeiToString 1080 False) = Value ''1.08 KWei''"
  "StringToWei ''1.08 KWei'' = Value 1000"
  by (simp_all add: format_eval parse_eval)

section \<open>The fraction of a decimal input (C2)\<close>

text \<open>
  C2. For "0.012 ether" the trimmed fraction is "012", of length 3, and 10^3 divides the
  multiplier 10^18, so the claimed result is 12 * 10^15. The code returns 10 * 10^15: it
  reads the fraction with \<^verbatim>\<open>SetString(trimmedDecimal, 0)\<close>, and base 0 takes the
  leading 0 as the octal prefix. The integer part is read with base 10.
\<close>

theorem fraction_read_with_base_zero:
  "StringToWei ''0.012 ether'' = Value (10 * 10 ^ 15)
   \<and> StringToWei ''0.012 ether'' \<noteq> Value (0 * 10 ^ 18 + 12 * (10 ^ 18 div 10 ^ 3))"
  by (simp add: parse_eval)

text \<open>The parts of C2 that the code does follow, at the inputs the specification names.\<close>

lemma decimal_examples:
  "StringToWei ''1.5 ether'' = Value 1500000000000000000"
  "StringToWei ''0.000000000000000001 ether'' = Value 1"
  "StringToWei ''0.1 wei'' = Failure FractionalWei"
  "StringToWei ''1.50 ether'' = Value 1500000000000000000"
  by (simp_all add: parse_eval)

text \<open>
  What the code does with a fraction that has no leading zero: the rule of C2. The input is
  "ip.F00..0 unit" with ip and F strings of digits (ip may be empty), F starting and ending
  with a digit other than 0, and the unit in the table with multiplier m.
\<close>

lemma decimal_without_leading_zero:
  assumes m: "UnitToMultiplier unit = Value m" and us: "CHR '' '' \<notin> set unit"
    and ip: "list_all isDigit ip"
    and F: "list_all isDigit F" "F \<noteq> []" "hd F \<noteq> CHR ''0''" "last F \<noteq> CHR ''0''"
  shows "StringToWei (ip @ ''.'' @ F @ replicate z CHR ''0'' @ '' '' @ unit) =
           (if 10 ^ length F dvd m
            then Value (int (decimalValue ip) * m + int (decimalValue F) * (m div 10 ^ length F))
            else Failure FractionalWei)"
proof -
  define fz where "fz = F @ replicate z CHR ''0''"
  define num where "num = ip @ ''.'' @ fz"
  have zs: "list_all isDigit (replicate z CHR ''0'')"
    by (simp add: list_all_iff isDigit_def)
  have fzd: "list_all isDigit fz" unfolding fz_def using F(1) zs by simp
  have ns: "CHR '' '' \<notin> set num" "CHR ''.'' \<in> set num"
    unfolding num_def using isDigit_chars [OF ip] isDigit_chars [OF fzd] by simp_all
  have e: "StringToWei (num @ '' '' @ unit) =
           (case decimalStringToWei num unit 0 of
              Value result \<Rightarrow> (if result < 0 then Failure NegativeWei else Value result)
            | Failure e \<Rightarrow> Failure e
            | Panic p \<Rightarrow> Panic p)"
    using ns us by (intro StringToWei_decimal_token) simp_all
  have sp: "Split num CHR ''.'' = [ip, fz]"
    unfolding num_def using isDigit_chars [OF ip] isDigit_chars [OF fzd]
    by (simp add: Split_first Split_no_separator)
  have int_part: "(if ip \<noteq> [] then
                   (case integerStringToWei ip unit of
                      Value r \<Rightarrow> Value r
                    | Failure _ \<Rightarrow> Failure (FailedParse num unit)
                    | Panic p \<Rightarrow> Panic p)
                 else Value 0) = Value (int (decimalValue ip) * m)"
  proof (cases "ip = []")
    case True
    then show ?thesis by (simp add: decimalValue_empty)
  next
    case False
    then show ?thesis
      unfolding integerStringToWei_def using SetString_digits_ten [OF ip False] m by simp
  qed
  have tr: "TrimRight fz CHR ''0'' = F"
    unfolding fz_def by (rule TrimRight_zeros [OF F(2) F(4)])
  have dv: "fst (SetString F 0) = int (decimalValue F)"
    using SetString_digits_zero [OF F(1) F(2) F(3)] by simp
  obtain k where k: "m = 1000 ^ k" using UnitToMultiplier_power [OF m] by blast
  have z: "(m div 10 ^ length F = 0) = (\<not> 10 ^ length F dvd m)"
    unfolding k by (rule thousand_div_zero)
  have d: "decimalStringToWei num unit 0 =
          (if 10 ^ length F dvd m
           then Value (int (decimalValue ip) * m + (m div 10 ^ length F) * int (decimalValue F))
           else Failure FractionalWei)"
    unfolding decimalStringToWei_def sp list.case int_part outcome.case Let_def tr dv m
      option.case divideByTen_closed z
    using F(2) by simp
  have mp: "0 \<le> m" unfolding k by simp
  then have "0 \<le> m div 10 ^ length F" by (simp add: pos_imp_zdiv_nonneg_iff)
  with mp have nn: "\<not> int (decimalValue ip) * m + (m div 10 ^ length F) * int (decimalValue F) < 0"
    by (simp add: add_nonneg_nonneg not_less)
  have "StringToWei (num @ '' '' @ unit) =
          (if 10 ^ length F dvd m
           then Value (int (decimalValue ip) * m + int (decimalValue F) * (m div 10 ^ length F))
           else Failure FractionalWei)"
    unfolding e d using nn by (simp add: mult.commute)
  then show ?thesis by (simp add: num_def fz_def)
qed

lemma decimal_without_leading_zero_example:
  "StringToWei ''12.340 gwei'' = Value (12 * 10 ^ 9 + 34 * (10 ^ 9 div 10 ^ 2))"
  using decimal_without_leading_zero [of "''gwei''" "10 ^ 9" "''12''" "''34''" 1]
  by (simp add: UnitToMultiplier_def ToLower_def lowerChar_def isDigit_def decimalValue_def digitVal_def)

section \<open>Unknown units (C3)\<close>

text \<open>
  C3. For ".5 bogus" the integer part is empty, so \<^verbatim>\<open>integerStringToWei\<close> is not called
  and the unknown unit is first met by the second \<^verbatim>\<open>UnitToMultiplier\<close> call, whose error
  the code drops. The multiplier is nil and the division loop panics: no error is returned.
  For ".0 bogus" the fraction trims to nothing and the call returns 0.
\<close>

theorem unknown_unit_empty_integer_part:
  "StringToWei ''.5 bogus'' = Panic NilDereference
   \<and> StringToWei ''.0 bogus'' = Value 0"
  by (simp add: parse_eval)

text \<open>With an integer part the unknown unit is reported as an error.\<close>

lemma unknown_unit_examples:
  "StringToWei ''5 bogus'' = Failure (FailedUnit ''5'' ''bogus'')"
  "StringToWei ''1.5 bogus'' = Failure (FailedParse ''1.5'' ''bogus'')"
  "UnitToMultiplier ''bogus'' = Failure (UnknownUnit ''bogus'')"
  by (simp_all add: parse_eval)

section \<open>Tier indices beyond the label table (C4)\<close>

text \<open>
  C4, as the code has it. \<^verbatim>\<open>WeiToString\<close> has no error path: its error result is nil
  wherever it returns. It reads \<^verbatim>\<open>metricUnits[postfixPos]\<close> without a guard, so a tier
  index beyond the eleven labels stops in the run-time panic of the bounds check instead of
  an error value. With standard = false and a non-negative amount this happens exactly from
  10^33 on: below it a string is returned.
\<close>

theorem format_tier_out_of_range:
  assumes "0 \<le> a"
  shows "(a < 10 ^ 33 \<longrightarrow> (\<exists>s. snd (WeiToString a False) = Value s))
       \<and> (10 ^ 33 \<le> a \<longrightarrow> (\<exists>p. 10 < p \<and> snd (WeiToString a False) = Panic (IndexOutOfRange p)))
       \<and> (\<forall>e. snd (WeiToString a standard) \<noteq> Failure e)"
proof -
  define d where "d = desiredPos (snd (stepDown a 0)) (Text (fst (stepDown a 0))) False"
  have t: "(d \<le> 10) = (a < 10 ^ 33)"
    unfolding d_def by (rule final_tier [OF assms])
  have small: "a < 10 ^ 33 \<longrightarrow> (\<exists>s. snd (WeiToString a False) = Value s)"
  proof
    assume "a < 10 ^ 33"
    with t have "d < 11" by simp
    then show "\<exists>s. snd (WeiToString a False) = Value s"
      unfolding WeiToString_closed Let_def d_def by simp
  qed
  have large: "10 ^ 33 \<le> a \<longrightarrow> (\<exists>p. 10 < p \<and> snd (WeiToString a False) = Panic (IndexOutOfRange p))"
  proof
    assume "10 ^ 33 \<le> a"
    with t have "10 < d" by simp
    then have "10 < d \<and> snd (WeiToString a False) = Panic (IndexOutOfRange d)"
      unfolding WeiToString_closed Let_def d_def by simp
    then show "\<exists>p. 10 < p \<and> snd (WeiToString a False) = Panic (IndexOutOfRange p)" ..
  qed
  have never: "\<forall>e. snd (WeiToString a standard) \<noteq> Failure e"
    unfolding WeiToString_closed Let_def by simp
  from small large never show ?thesis by blast
qed

theorem format_tier_out_of_range_witness:
  "(0::int) \<le> 999 \<and> (999::int) < 10 ^ 33 \<and> (\<exists>s. snd (WeiToString 999 False) = Value s)
   \<and> (0::int) \<le> 10 ^ 33 \<and> (10::int) ^ 33 \<le> 10 ^ 33
   \<and> (\<exists>p. 10 < p \<and> snd (WeiToString (10 ^ 33) False) = Panic (IndexOutOfRange p))"
proof -
  have h1: "(0::int) \<le> 999" and h2: "(0::int) \<le> 10 ^ 33" by simp_all
  show ?thesis
    using format_tier_out_of_range [OF h1, of False] format_tier_out_of_range [OF h2, of False]
    by simp
qed

theorem format_no_overflow_error:
  "snd (WeiToString (10 ^ 33) False) = Panic (IndexOutOfRange 11)"
  by (simp add: format_eval)

section \<open>The caller's integer after formatting (C5)\<close>

text \<open>
  C5. \<^verbatim>\<open>WeiToString\<close> divides the caller's big integer in place. After formatting 1000
  the caller's integer holds 1.
\<close>

theorem WeiToString_changes_argument:
  "WeiToString 1000 False = (1, Value ''1 KWei'')"
  by (simp add: format_eval)

text \<open>
  The caller's integer after \<^verbatim>\<open>WeiToString\<close>: it is what step 1 leaves, and it differs
  from the amount passed exactly when the amount is at least 1000 and a multiple of 1000.
\<close>

lemma WeiToString_argument_after:
  "fst (WeiToString a std) = fst (stepDown a 0)"
  "(fst (WeiToString a std) = a) = (\<not> (1000 \<le> a \<and> a mod 1000 = 0))"
proof -
  show w: "fst (WeiToString a std) = fst (stepDown a 0)"
    unfolding WeiToString_def layout_closed Let_def by simp
  show "(fst (WeiToString a std) = a) = (\<not> (1000 \<le> a \<and> a mod 1000 = 0))"
  proof (cases "1000 \<le> a \<and> a mod 1000 = 0")
    case False
    then have "stepDown a 0 = (a, 0)" by (subst stepDown.simps) auto
    with False w show ?thesis by simp
  next
    case True
    obtain r q where s: "stepDown (a div 1000) 1 = (r, q)" by (cases "stepDown (a div 1000) 1")
    have nn: "0 \<le> a div 1000" using True by (simp add: pos_imp_zdiv_nonneg_iff)
    from stepDown_invariant [OF nn s]
    have i: "a div 1000 = r * 1000 ^ (q - 1)" "0 \<le> r" by simp_all
    have "r * 1 \<le> r * 1000 ^ (q - 1)" using i(2) by (intro mult_left_mono) simp_all
    then have "r \<le> a div 1000" using i(1) by simp
    moreover have "a div 1000 < a" using True by (intro int_div_less_self) simp_all
    ultimately have "r < a" by simp
    moreover have "stepDown a 0 = (r, q)" using True s by (subst stepDown.simps) simp
    ultimately show ?thesis using True w by simp
  qed
qed

section \<open>The labels of standard mode (C6)\<close>

text \<open>
  C6. With standard = true the call always returns a string, the number text (which has no
  space) followed by one space and a label, and the label is Wei, KWei, MWei, GWei or Ether:
  never Microether or Milliether. The label follows the size of a non-negative amount:
  below 10^3 it is Wei, from 10^3 KWei, from 10^6 MWei, from 10^9 GWei, and from 10^12 on,
  where the tier would pass GWei, it is Ether.
\<close>

theorem standard_mode_labels:
  "\<exists>num label. snd (WeiToString a True) = Value (num @ '' '' @ label)
      \<and> CHR '' '' \<notin> set num
      \<and> label \<in> {''Wei'', ''KWei'', ''MWei'', ''GWei'', ''Ether''}
      \<and> label \<noteq> ''Microether'' \<and> label \<noteq> ''Milliether''
      \<and> (0 \<le> a \<and> a < 10 ^ 3 \<longrightarrow> label = ''Wei'')
      \<and> (10 ^ 3 \<le> a \<and> a < 10 ^ 6 \<longrightarrow> label = ''KWei'')
      \<and> (10 ^ 6 \<le> a \<and> a < 10 ^ 9 \<longrightarrow> label = ''MWei'')
      \<and> (10 ^ 9 \<le> a \<and> a < 10 ^ 12 \<longrightarrow> label = ''GWei'')
      \<and> (10 ^ 12 \<le> a \<longrightarrow> label = ''Ether'')"
proof -
  define r where "r = fst (stepDown a 0)"
  define k where "k = snd (stepDown a 0)"
  define d0 where "d0 = desiredPos k (Text r) False"
  define d where "d = desiredPos k (Text r) True"
  define num where "num = trimDecimal (placeDecimal (Text r @ replicate (3 * (k - d)) CHR ''0'')
                  (int (length (Text r)) - 3 * int (d - k) + 3 * int (k - d)))"
  have clamp: "d = (if 3 < d0 then 6 else d0)"
    unfolding d_def d0_def by (rule desiredPos_clamp)
  have dd: "d \<in> {0, 1, 2, 3, 6}" unfolding d_def by (rule desiredPos_standard)
  then have lt: "d < 11" by auto
  have w: "snd (WeiToString a True) = Value (num @ '' '' @ metricUnits ! d)"
    unfolding WeiToString_closed Let_def r_def [symmetric] k_def [symmetric] d_def [symmetric]
      num_def [symmetric] using lt by simp
  have ns: "CHR '' '' \<notin> set num"
    unfolding num_def by (rule number_text_no_space)
  have lab: "metricUnits ! d \<in> {''Wei'', ''KWei'', ''MWei'', ''GWei'', ''Ether''}"
    using dd by (auto simp add: metricUnits_def)
  then have never: "metricUnits ! d \<noteq> ''Microether'' \<and> metricUnits ! d \<noteq> ''Milliether''"
    by auto
  have u: "(d0 \<le> t) = (a < 1000 ^ Suc t)" if "0 \<le> a" for t
    unfolding d0_def k_def r_def by (rule unclamped_tier [OF that])
  have wei: "0 \<le> a \<and> a < 10 ^ 3 \<longrightarrow> metricUnits ! d = ''Wei''"
  proof
    assume h: "0 \<le> a \<and> a < 10 ^ 3"
    then have "d0 \<le> 0" using u [of 0] by simp
    then have "d = 0" using clamp by simp
    then show "metricUnits ! d = ''Wei''" by (simp add: metricUnits_def)
  qed
  have kwei: "10 ^ 3 \<le> a \<and> a < 10 ^ 6 \<longrightarrow> metricUnits ! d = ''KWei''"
  proof
    assume h: "10 ^ 3 \<le> a \<and> a < 10 ^ 6"
    then have "\<not> d0 \<le> 0" "d0 \<le> 1" using u [of 0] u [of 1] by simp_all
    then have "d = 1" using clamp by simp
    then show "metricUnits ! d = ''KWei''" by (simp add: metricUnits_def)
  qed
  have mwei: "10 ^ 6 \<le> a \<and> a < 10 ^ 9 \<longrightarrow> metricUnits ! d = ''MWei''"
  proof
    assume h: "10 ^ 6 \<le> a \<and> a < 10 ^ 9"
    then have "\<not> d0 \<le> 1" "d0 \<le> 2" using u [of 1] u [of 2] by simp_all
    then have "d = 2" using clamp by simp
    then show "metricUnits ! d = ''MWei''" by (simp add: metricUnits_def)
  qed
  have gwei: "10 ^ 9 \<le> a \<and> a < 10 ^ 12 \<longrightarrow> metricUnits ! d = ''GWei''"
  proof
    assume h: "10 ^ 9 \<le> a \<and> a < 10 ^ 12"
    then have "\<not> d0 \<le> 2" "d0 \<le> 3" using u [of 2] u [of 3] by simp_all
    then have "d = 3" using clamp by simp
    then show "metricUnits ! d = ''GWei''" by (simp add: metricUnits_def)
  qed
  have ether: "10 ^ 12 \<le> a \<longrightarrow> metricUnits ! d = ''Ether''"
  proof
    assume h: "10 ^ 12 \<le> a"
    then have "\<not> d0 \<le> 3" using u [of 3] by simp
    then have "d = 6" using clamp by simp
    then show "metricUnits ! d = ''Ether''" by (simp add: metricUnits_def)
  qed
  from w ns lab never wei kwei mwei gwei ether show ?thesis by blast
qed

theorem standard_mode_labels_witness:
  "((0::int) \<le> 999 \<and> (999::int) < 10 ^ 3
      \<and> (\<exists>num. snd (WeiToString 999 True) = Value (num @ '' Wei'') \<and> CHR '' '' \<notin> set num))
   \<and> ((10::int) ^ 3 \<le> 1500 \<and> (1500::int) < 10 ^ 6
      \<and> (\<exists>num. snd (WeiToString 1500 True) = Value (num @ '' KWei'') \<and> CHR '' '' \<notin> set num))
   \<and> ((10::int) ^ 6 \<le> 2000000 \<and> (2000000::int) < 10 ^ 9
      \<and> (\<exists>num. snd (WeiToString 2000000 True) = Value (num @ '' MWei'') \<and> CHR '' '' \<notin> set num))
   \<and> ((10::int) ^ 9 \<le> 999999999999 \<and> (999999999999::int) < 10 ^ 12
      \<and> (\<exists>num. snd (WeiToString 999999999999 True) = Value (num @ '' GWei'') \<and> CHR '' '' \<notin> set num))
   \<and> ((10::int) ^ 12 \<le> 10 ^ 15
      \<and> (\<exists>num. snd (WeiToString (10 ^ 15) True) = Value (num @ '' Ether'') \<and> CHR '' '' \<notin> set num))
   \<and> ((10::int) ^ 12 \<le> 10 ^ 33
      \<and> (\<exists>num. snd (WeiToString (10 ^ 33) True) = Value (num @ '' Ether'') \<and> CHR '' '' \<notin> set num))"
proof -
  have a1: "(0::int) \<le> 999 \<and> (999::int) < 10 ^ 3" by simp
  have a2: "(10::int) ^ 3 \<le> 1500 \<and> (1500::int) < 10 ^ 6" by simp
  have a3: "(10::int) ^ 6 \<le> 2000000 \<and> (2000000::int) < 10 ^ 9" by simp
  have a4: "(10::int) ^ 9 \<le> 999999999999 \<and> (999999999999::int) < 10 ^ 12" by simp
  have a5: "(10::int) ^ 12 \<le> 10 ^ 15" by simp
  have a6: "(10::int) ^ 12 \<le> 10 ^ 33" by simp
  have b1: "\<exists>num. snd (WeiToString 999 True) = Value (num @ '' Wei'') \<and> CHR '' '' \<notin> set num"
    using standard_mode_labels [of 999] a1 by auto
  have b2: "\<exists>num. snd (WeiToString 1500 True) = Value (num @ '' KWei'') \<and> CHR '' '' \<notin> set num"
    using standard_mode_labels [of 1500] a2 by auto
  have b3: "\<exists>num. snd (WeiToString 2000000 True) = Value (num @ '' MWei'') \<and> CHR '' '' \<notin> set num"
    using standard_mode_labels [of 2000000] a3 by auto
  have b4: "\<exists>num. snd (WeiToString 999999999999 True) = Value (num @ '' GWei'') \<and> CHR '' '' \<notin> set num"
    using standard_mode_labels [of 999999999999] a4 by auto
  have b5: "\<exists>num. snd (WeiToString (10 ^ 15) True) = Value (num @ '' Ether'') \<and> CHR '' '' \<notin> set num"
    using standard_mode_labels [of "10 ^ 15"] a5 by auto
  have b6: "\<exists>num. snd (WeiToString (10 ^ 33) True) = Value (num @ '' Ether'') \<and> CHR '' '' \<notin> set num"
    using standard_mode_labels [of "10 ^ 33"] a6 by auto
  from a1 a2 a3 a4 a5 a6 b1 b2 b3 b4 b5 b6 show ?thesis by blast
qed

lemma replicate_numeral_unfold:
  "replicate (numeral n) x = x # replicate (pred_numeral n) x"
  by (simp add: numeral_eq_Suc)

lemma standard_mode_example:
  "snd (WeiToString (10 ^ 15) True) = Value ''0.001 Ether''"
  "snd (WeiToString 999999999999 True) = Value ''999.999999999 GWei''"
  "snd (WeiToString 1000000000000 True) = Value ''0.000001 Ether''"
  by (simp_all add: format_eval replicate_numeral_unfold)

section \<open>The unit table (C7)\<close>

text \<open>
  C7. The lookup depends on the unit name only through its lower-cased form; the empty name
  and "wei" give 1; the metric names give 10^3, 10^6, ... in steps of 10^3, with ether at
  10^18 and teraether at 10^30; every multiplier the table returns is a power of 1000 up to
  1000^10; and "1 ETHER" parses to the same amount as "1 ether".
\<close>

theorem unit_table:
  "(ToLower u = ToLower v \<longrightarrow> UnitToMultiplier u = Value m \<longrightarrow> UnitToMultiplier v = Value m)
   \<and> UnitToMultiplier '''' = Value 1
   \<and> UnitToMultiplier ''wei'' = Value 1
   \<and> map UnitToMultiplier
        [''kwei'', ''mwei'', ''gwei'', ''microether'', ''milliether'', ''ether'',
         ''kiloether'', ''megaether'', ''gigaether'', ''teraether'']
      = map Value [10 ^ 3, 10 ^ 6, 10 ^ 9, 10 ^ 12, 10 ^ 15, 10 ^ 18, 10 ^ 21, 10 ^ 24, 10 ^ 27, 10 ^ 30]
   \<and> map UnitToMultiplier
        [''ada'', ''kilowei'', ''babbage'', ''megawei'', ''shannon'', ''gigawei'', ''szazbo'',
         ''micro'', ''finney'', ''milli'', ''einstein'', ''kilo'', ''mega'', ''giga'', ''tera'']
      = map Value [10 ^ 3, 10 ^ 3, 10 ^ 6, 10 ^ 6, 10 ^ 9, 10 ^ 9, 10 ^ 12, 10 ^ 12, 10 ^ 15,
                   10 ^ 15, 10 ^ 21, 10 ^ 21, 10 ^ 24, 10 ^ 27, 10 ^ 30]
   \<and> (UnitToMultiplier u = Value m \<longrightarrow> (\<exists>k\<le>10. m = 1000 ^ k))
   \<and> StringToWei ''1 ETHER'' = StringToWei ''1 ether''
   \<and> StringToWei ''1 ether'' = Value (10 ^ 18)"
proof -
  have insensitive:
    "ToLower u = ToLower v \<longrightarrow> UnitToMultiplier u = Value m \<longrightarrow> UnitToMultiplier v = Value m"
    using UnitToMultiplier_lower [of u m] UnitToMultiplier_lower [of v m] by auto
  have base: "UnitToMultiplier '''' = Value 1" "UnitToMultiplier ''wei'' = Value 1"
    by (simp_all add: parse_eval)
  have metric: "map UnitToMultiplier
        [''kwei'', ''mwei'', ''gwei'', ''microether'', ''milliether'', ''ether'',
         ''kiloether'', ''megaether'', ''gigaether'', ''teraether'']
      = map Value [10 ^ 3, 10 ^ 6, 10 ^ 9, 10 ^ 12, 10 ^ 15, 10 ^ 18, 10 ^ 21, 10 ^ 24, 10 ^ 27, 10 ^ 30]"
    by (simp add: parse_eval)
  have named: "map UnitToMultiplier
        [''ada'', ''kilowei'', ''babbage'', ''megawei'', ''shannon'', ''gigawei'', ''szazbo'',
         ''micro'', ''finney'', ''milli'', ''einstein'', ''kilo'', ''mega'', ''giga'', ''tera'']
      = map Value [10 ^ 3, 10 ^ 3, 10 ^ 6, 10 ^ 6, 10 ^ 9, 10 ^ 9, 10 ^ 12, 10 ^ 12, 10 ^ 15,
                   10 ^ 15, 10 ^ 21, 10 ^ 21, 10 ^ 24, 10 ^ 27, 10 ^ 30]"
    by (simp add: parse_eval)
  have power: "UnitToMultiplier u = Value m \<longrightarrow> (\<exists>k\<le>10. m = 1000 ^ k)"
    using UnitToMultiplier_power by blast
  have upper: "StringToWei ''1 ETHER'' = Value (10 ^ 18)"
    by (simp add: parse_eval)
  have lower: "StringToWei ''1 ether'' = Value (10 ^ 18)"
    by (simp add: parse_eval)
  show ?thesis
    using insensitive base metric named power upper lower by presburger
qed

theorem unit_table_witness:
  "ToLower ''GWei'' = ToLower ''gwei''
   \<and> UnitToMultiplier ''GWei'' = Value 1000000000
   \<and> UnitToMultiplier ''gwei'' = Value 1000000000
   \<and> (\<exists>k\<le>10. (1000000000::int) = 1000 ^ k)"
proof -
  have l: "ToLower ''GWei'' = ToLower ''gwei''"
    by (simp add: ToLower_def lowerChar_def)
  have u: "UnitToMultiplier ''GWei'' = Value 1000000000"
    by (simp add: parse_eval)
  show ?thesis
    using l u unit_table [of "''GWei''" "''gwei''" 1000000000] by blast
qed

section \<open>Numeric tokens outside the grammar (C8)\<close>

text \<open>
  C8, as the code has it. In an input "num unit" with one space: a numeric token without a
  decimal point is refused with the numeric-value error exactly when it is not an optional
  sign followed by one or more digits; and a token with a decimal point is refused when the
  text before its first point is not empty and not of that form. A sign is part of the
  accepted syntax: "+5 ether" is 5 * 10^18, and a negative result is refused afterwards.
\<close>

theorem invalid_number_rejected:
  assumes "CHR '' '' \<notin> set unit"
  shows "(CHR '' '' \<notin> set num \<and> CHR ''.'' \<notin> set num \<longrightarrow>
            (StringToWei (num @ '' '' @ unit) = Failure (FailedNumeric num unit)) = (\<not> signedDigits num))
       \<and> (CHR '' '' \<notin> set ip \<and> CHR ''.'' \<notin> set ip \<and> CHR '' '' \<notin> set rest \<and> ip \<noteq> [] \<and> \<not> signedDigits ip \<longrightarrow>
            StringToWei (ip @ ''.'' @ rest @ '' '' @ unit) = Failure (FailedParse (ip @ ''.'' @ rest) unit))"
proof (intro conjI impI)
  assume h: "CHR '' '' \<notin> set num \<and> CHR ''.'' \<notin> set num"
  then have e: "StringToWei (num @ '' '' @ unit) =
           (case integerStringToWei num unit of
              Value result \<Rightarrow> (if result < 0 then Failure NegativeWei else Value result)
            | Failure e \<Rightarrow> Failure e
            | Panic p \<Rightarrow> Panic p)"
    using assms by (intro StringToWei_integer_token) simp_all
  show "(StringToWei (num @ '' '' @ unit) = Failure (FailedNumeric num unit)) = (\<not> signedDigits num)"
    unfolding e using integerStringToWei_numeric [of num unit]
    by (cases "integerStringToWei num unit") (auto split: if_splits)
next
  assume h: "CHR '' '' \<notin> set ip \<and> CHR ''.'' \<notin> set ip \<and> CHR '' '' \<notin> set rest \<and> ip \<noteq> [] \<and> \<not> signedDigits ip"
  define num where "num = ip @ ''.'' @ rest"
  have "CHR '' '' \<notin> set num" "CHR ''.'' \<in> set num" using h by (simp_all add: num_def)
  then have e: "StringToWei (num @ '' '' @ unit) =
           (case decimalStringToWei num unit 0 of
              Value result \<Rightarrow> (if result < 0 then Failure NegativeWei else Value result)
            | Failure e \<Rightarrow> Failure e
            | Panic p \<Rightarrow> Panic p)"
    using assms by (intro StringToWei_decimal_token) simp_all
  have "decimalStringToWei num unit 0 = Failure (FailedParse num unit)"
    unfolding num_def using h by (intro decimalStringToWei_integer_part) simp_all
  with e have "StringToWei (num @ '' '' @ unit) = Failure (FailedParse num unit)" by simp
  then show "StringToWei (ip @ ''.'' @ rest @ '' '' @ unit) = Failure (FailedParse (ip @ ''.'' @ rest) unit)"
    by (simp add: num_def)
qed

theorem invalid_number_rejected_witness:
  "CHR '' '' \<notin> set ''ether'' \<and> CHR '' '' \<notin> set ''5x'' \<and> CHR ''.'' \<notin> set ''5x''
   \<and> \<not> signedDigits ''5x''
   \<and> StringToWei ''5x ether'' = Failure (FailedNumeric ''5x'' ''ether'')
   \<and> CHR '' '' \<notin> set ''x'' \<and> CHR ''.'' \<notin> set ''x'' \<and> CHR '' '' \<notin> set ''5'' \<and> ''x'' \<noteq> []
   \<and> \<not> signedDigits ''x''
   \<and> StringToWei ''x.5 ether'' = Failure (FailedParse ''x.5'' ''ether'')"
proof -
  have u: "CHR '' '' \<notin> set ''ether''" by simp
  have a: "\<not> signedDigits ''5x''" "\<not> signedDigits ''x''"
    by (simp_all add: signedDigits_def isDigit_def)
  show ?thesis
    using a invalid_number_rejected [OF u, of "''5x''" "''x''" "''5''"] by simp
qed

theorem signed_number_accepted:
  "\<not> spec_INTEGER ''+5'' \<and> \<not> spec_DECIMAL ''+5''
   \<and> StringToWei ''+5 ether'' = Value 5000000000000000000"
  by (simp add: spec_INTEGER_def spec_DECIMAL_def isDigit_def parse_eval)

text \<open>The other two inputs that C8 names are accepted as well; \<open>-5 ether\<close> is refused for
  its sign.\<close>

lemma other_numeric_examples:
  "StringToWei ''abc'' = Value 0"
  "StringToWei ''1.2.3 ether'' = Value 1200000000000000000"
  "StringToWei ''-5 ether'' = Failure NegativeWei"
  "StringToWei ''abc ether'' = Failure (FailedNumeric ''abc'' ''ether'')"
  by (simp_all add: parse_eval)

section \<open>A bare decimal string (C9)\<close>

text \<open>
  C9. The bare string "1.5" gives no error. The branch for an input without a space calls
  \<^verbatim>\<open>SetString\<close> and drops its success flag; the scan stops at the point with 1 in the
  result, and 1 is returned.
\<close>

theorem bare_decimal_returns_value:
  "StringToWei ''1.5'' = Value 1"
  by (simp add: parse_eval)

section \<open>Formatting zero (C10)\<close>

text \<open>
  C10. Formatting the amount 0 with standard = false returns the string "0 Wei": the digit
  0 and the base-unit label, no decimal point and no step to another unit. The caller's
  integer is still 0.
\<close>

theorem format_zero: "WeiToString 0 False = (0, Value ''0 Wei'')"
  by (simp add: format_eval)

end
